theory Spec2Isabelle
  imports Main
begin

section \<open>The expression model\<close>

text \<open>
  The development follows the last revision of \<^verbatim>\<open>generateSql.ts\<close> (the one that exports
  \<^verbatim>\<open>defaultFormatOperator\<close> and \<^verbatim>\<open>builtInFormatters\<close>).

  An operator of the source is a JavaScript array, hence an object with an identity:
  \<^verbatim>\<open>meta.visited.includes(where)\<close> compares references, and a test of the repository builds
  a clause that contains itself. Operators therefore live in a store and are named by
  their address; the children of \<^verbatim>\<open>and\<close>, \<^verbatim>\<open>or\<close> and \<^verbatim>\<open>not\<close> and the bodies of macros are
  addresses. Values (\<^verbatim>\<open>SqlValue\<close>) are never compared by reference and are kept by value.
  Numbers are the integers that a JavaScript number holds exactly and prints with all
  their digits (absolute value at most \<open>2 ^ 53\<close>).
\<close>

type_synonym addr = nat

datatype SqlValue =
    ValField int
  | ValNumber int
  | ValString string
  | ValNull

datatype BoolSign = And | Or
datatype CmpSign = Lt | Gt
datatype EqSign = Eq | Ne
datatype EmptySign = IsEmpty | NotEmpty

text \<open>
  \<^verbatim>\<open>['=' | '!=', SqlValue, SqlValue, ...SqlValue[]]\<close>: the operand, the first comparison
  value, and the further comparison values.
\<close>

datatype SqlOperator =
    OpField int
  | OpBool BoolSign addr addr
  | OpNot addr
  | OpCmp CmpSign SqlValue SqlValue
  | OpEq EqSign SqlValue SqlValue "SqlValue list"
  | OpEmpty EmptySign SqlValue
  | OpMacro string

type_synonym store = "SqlOperator list"

text \<open>
  The macro table and the formatter registry are plain objects indexed by a string:
  \<^verbatim>\<open>meta.macros[where[1]]\<close> and \<^verbatim>\<open>formatters[dialect]\<close> find an own property or, failing that,
  a member of \<^verbatim>\<open>Object.prototype\<close>, a function or object that is neither an operator nor a
  formatter. A map holds the own properties. The field map is indexed by a number, which
  names no member of \<^verbatim>\<open>Object.prototype\<close>.
\<close>

definition objectPrototype :: "string list" where
  "objectPrototype =
     [''constructor'', ''hasOwnProperty'', ''isPrototypeOf'', ''propertyIsEnumerable'',
      ''toLocaleString'', ''toString'', ''valueOf'', ''__proto__'',
      ''__defineGetter__'', ''__defineSetter__'', ''__lookupGetter__'', ''__lookupSetter__'']"

datatype 'a property = Own 'a | Inherited | Missing

definition getProperty :: "(string \<rightharpoonup> 'a) \<Rightarrow> string \<Rightarrow> 'a property" where
  "getProperty obj name = (case obj name of
      Some v \<Rightarrow> Own v
    | None \<Rightarrow> if name \<in> set objectPrototype then Inherited else Missing)"

text \<open>
  What is thrown or returned as an \<^verbatim>\<open>Error\<close>: \<^verbatim>\<open>No formatter found for dialect\<close>,
  \<^verbatim>\<open>Unknown field number\<close>, \<^verbatim>\<open>Macro not found\<close>, \<^verbatim>\<open>Circular dependency detected\<close>, and
  the \<^verbatim>\<open>TypeError\<close> of reading a property of \<^verbatim>\<open>undefined\<close>.
\<close>

datatype error =
    UnknownDialect string
  | UnknownField int
  | MacroNotFound string
  | CircularDependency
  | TypeError

text \<open>
  The fields \<^verbatim>\<open>type\<close>, \<^verbatim>\<open>list\<close>, \<^verbatim>\<open>from\<close>, \<^verbatim>\<open>where\<close> and \<^verbatim>\<open>limit\<close> of a statement, and
  \<^verbatim>\<open>limit\<close> and \<^verbatim>\<open>where\<close> of a query. An absent optional field is \<open>None\<close>.
\<close>

record SqlStatement =
  stmt_type :: string
  stmt_list :: string
  stmt_from :: "string option"
  stmt_where :: "addr option"
  stmt_limit :: "int option"

record SqlQuery =
  query_limit :: "int option"
  query_where :: "addr option"

text \<open>
  Of \<^verbatim>\<open>meta.formatter\<close> the default renderers call \<^verbatim>\<open>formatColumn\<close>, \<^verbatim>\<open>formatValue\<close> and
  \<^verbatim>\<open>formatOperator\<close>. Every built-in bundle spreads \<^verbatim>\<open>defaultFormatter\<close> and overrides
  \<^verbatim>\<open>formatStatement\<close> or \<^verbatim>\<open>formatColumn\<close> only, so the last two are the default ones and
  the metadata carries the column renderer.
\<close>

record SqlFormatterMetadata =
  formatter :: "string \<Rightarrow> string"
  fields' :: "int \<rightharpoonup> string"
  macros :: "string \<rightharpoonup> addr"
  visited :: "addr list"

record SqlFormatter =
  formatStatement :: "store \<Rightarrow> SqlStatement \<Rightarrow> SqlFormatterMetadata \<Rightarrow> error + string"
  formatColumn :: "string \<Rightarrow> string"

record Result =
  success :: bool
  error :: "error option"
  data :: "string option"

record SqlTranspilerOptions =
  tableName :: "string option"
  opt_macros :: "(string \<rightharpoonup> addr) option"
  opt_formatters :: "(string \<rightharpoonup> SqlFormatter) option"

section \<open>Text\<close>

definition digit :: "nat \<Rightarrow> char" where
  "digit n = ''0123456789'' ! n"

function showNat :: "nat \<Rightarrow> string" where
  "showNat n = (if n < 10 then [digit n] else showNat (n div 10) @ [digit (n mod 10)])"
  by pat_completeness auto
termination
  by (relation "measure id") auto

declare showNat.simps [simp del]

definition showInt :: "int \<Rightarrow> string" where
  "showInt i = (if i < 0 then ''-'' @ showNat (nat (- i)) else showNat (nat i))"

text \<open>
  \<^verbatim>\<open>formatOperator\<close> returns a string, or \<^verbatim>\<open>undefined\<close> when no case of its \<^verbatim>\<open>switch\<close>
  matches: \<open>None\<close> is \<^verbatim>\<open>undefined\<close>. A template literal prints it as \<^verbatim>\<open>undefined\<close>, and
  \<^verbatim>\<open>Array.prototype.join\<close> as the empty string.
\<close>

definition interpolate :: "string option \<Rightarrow> string" where
  "interpolate r = (case r of None \<Rightarrow> ''undefined'' | Some s \<Rightarrow> s)"

definition joinElement :: "string option \<Rightarrow> string" where
  "joinElement r = (case r of None \<Rightarrow> [] | Some s \<Rightarrow> s)"

fun join :: "string \<Rightarrow> string list \<Rightarrow> string" where
  "join sep [] = []"
| "join sep [x] = x"
| "join sep (x # y # ys) = x @ sep @ join sep (y # ys)"

section \<open>The default formatter\<close>

text \<open>
  \<^verbatim>\<open>if (!columnName)\<close> rejects a missing entry and the empty string alike.
\<close>

definition formatValue :: "SqlValue \<Rightarrow> SqlFormatterMetadata \<Rightarrow> error + string" where
  "formatValue v meta = (case v of
      ValField key \<Rightarrow>
        (case fields' meta key of
           None \<Rightarrow> Inl (UnknownField key)
         | Some columnName \<Rightarrow>
             if columnName = [] then Inl (UnknownField key)
             else Inr (formatter meta columnName))
    | ValString s \<Rightarrow> Inr ([CHR 0x27] @ s @ [CHR 0x27])
    | ValNumber n \<Rightarrow> Inr (showInt n)
    | ValNull \<Rightarrow> Inr ''NULL'')"

text \<open>\<^verbatim>\<open>rest.map(f => formatValue(f, meta))\<close>, stopping at the first value that throws.\<close>

fun formatValues :: "SqlValue list \<Rightarrow> SqlFormatterMetadata \<Rightarrow> error + string list" where
  "formatValues [] meta = Inr []"
| "formatValues (v # vs) meta =
     (case formatValue v meta of
        Inl e \<Rightarrow> Inl e
      | Inr s \<Rightarrow> (case formatValues vs meta of Inl e \<Rightarrow> Inl e | Inr ss \<Rightarrow> Inr (s # ss)))"

text \<open>The tag \<^verbatim>\<open>where[0]\<close> of an operator.\<close>

fun tag :: "SqlOperator \<Rightarrow> string" where
  "tag (OpField key) = ''field''"
| "tag (OpBool And c1 c2) = ''and''"
| "tag (OpBool Or c1 c2) = ''or''"
| "tag (OpNot c) = ''not''"
| "tag (OpCmp Lt a b) = ''<''"
| "tag (OpCmp Gt a b) = ''>''"
| "tag (OpEq Eq a b bs) = ''=''"
| "tag (OpEq Ne a b bs) = ''!=''"
| "tag (OpEmpty IsEmpty a) = ''is-empty''"
| "tag (OpEmpty NotEmpty a) = ''not-empty''"
| "tag (OpMacro name) = ''macro''"

definition toUpperCase :: "string \<Rightarrow> string" where
  "toUpperCase s =
     map (\<lambda>c. let n = (of_char c :: nat) in if 97 \<le> n \<and> n \<le> 122 then char_of (n - 32) else c) s"

fun cmpSign :: "CmpSign \<Rightarrow> string" where
  "cmpSign Lt = ''<''"
| "cmpSign Gt = ''>''"

text \<open>\<^verbatim>\<open>['and', 'or'].includes(c[0])\<close>.\<close>

definition needsWrapped :: "store \<Rightarrow> addr \<Rightarrow> bool" where
  "needsWrapped h c = (c < length h \<and> tag (h ! c) \<in> set [''and'', ''or''])"

definition wrapped :: "store \<Rightarrow> addr \<Rightarrow> string option \<Rightarrow> string option" where
  "wrapped h c clauseStr =
     (if \<not> needsWrapped h c then clauseStr else Some (''('' @ interpolate clauseStr @ '')''))"

definition visit :: "addr \<Rightarrow> SqlFormatterMetadata \<Rightarrow> SqlFormatterMetadata" where
  "visit w meta = meta\<lparr>visited := visited meta @ [w]\<rparr>"

text \<open>
  An address outside the store stands for \<^verbatim>\<open>undefined\<close> where an operator is expected:
  \<^verbatim>\<open>includes\<close> does not find it and \<^verbatim>\<open>where[0]\<close> throws a \<^verbatim>\<open>TypeError\<close>; as the body
  of a macro it is falsy, so \<^verbatim>\<open>if (!macro)\<close> reports the macro as not found.

  A macro name that the table inherits from \<^verbatim>\<open>Object.prototype\<close> resolves to that member,
  which is truthy. \<^verbatim>\<open>formatOperator\<close> is called with it: it is no ancestor of anything, its
  \<^verbatim>\<open>[0]\<close> is \<^verbatim>\<open>undefined\<close>, no case matches, and the call returns \<^verbatim>\<open>undefined\<close>.
\<close>

function defaultFormatOperator ::
    "store \<Rightarrow> addr \<Rightarrow> SqlFormatterMetadata \<Rightarrow> error + string option" where
  "defaultFormatOperator h w meta =
    (if w \<in> set (visited meta) then Inl CircularDependency
     else if length h \<le> w then Inl TypeError
     else (case h ! w of
        OpBool sign c1 c2 \<Rightarrow>
          (case defaultFormatOperator h c1 (visit w meta) of
             Inl e \<Rightarrow> Inl e
           | Inr s1 \<Rightarrow>
              (case defaultFormatOperator h c2 (visit w meta) of
                 Inl e \<Rightarrow> Inl e
               | Inr s2 \<Rightarrow>
                   Inr (Some (join ('' '' @ toUpperCase (tag (h ! w)) @ '' '')
                         (map joinElement [wrapped h c1 s1, wrapped h c2 s2])))))
      | OpNot c \<Rightarrow>
          (case defaultFormatOperator h c (visit w meta) of
             Inl e \<Rightarrow> Inl e
           | Inr s \<Rightarrow> Inr (Some (''NOT ('' @ interpolate s @ '')'')))
      | OpCmp sign a b \<Rightarrow>
          (case formatValue a (visit w meta) of
             Inl e \<Rightarrow> Inl e
           | Inr sa \<Rightarrow>
              (case formatValue b (visit w meta) of
                 Inl e \<Rightarrow> Inl e
               | Inr sb \<Rightarrow> Inr (Some (sa @ '' '' @ cmpSign sign @ '' '' @ sb))))
      | OpEq sign a b bs \<Rightarrow>
          (if length (b # bs) = 1 then
             (let signSql =
                (if b = ValNull then (if sign = Ne then ''IS NOT'' else ''IS'')
                 else (if sign = Ne then ''<>'' else ''=''))
              in case formatValue a (visit w meta) of
                   Inl e \<Rightarrow> Inl e
                 | Inr sa \<Rightarrow>
                    (case formatValue b (visit w meta) of
                       Inl e \<Rightarrow> Inl e
                     | Inr sb \<Rightarrow> Inr (Some (sa @ '' '' @ signSql @ '' '' @ sb))))
           else
             (let signSql = (if sign = Ne then ''NOT IN'' else ''IN'')
              in case formatValue a (visit w meta) of
                   Inl e \<Rightarrow> Inl e
                 | Inr sa \<Rightarrow>
                    (case formatValues (b # bs) (visit w meta) of
                       Inl e \<Rightarrow> Inl e
                     | Inr ss \<Rightarrow>
                         Inr (Some (sa @ '' '' @ signSql @ '' ('' @ join '', '' ss @ '')'')))))
      | OpEmpty sign a \<Rightarrow>
          (case formatValue a (visit w meta) of
             Inl e \<Rightarrow> Inl e
           | Inr sa \<Rightarrow>
               Inr (Some (sa @ (if sign = IsEmpty then '' IS NULL'' else '' IS NOT NULL''))))
      | OpField key \<Rightarrow>
          (case formatValue (ValField key) (visit w meta) of
             Inl e \<Rightarrow> Inl e
           | Inr s \<Rightarrow> Inr (Some s))
      | OpMacro name \<Rightarrow>
          (case getProperty (macros (visit w meta)) name of
             Missing \<Rightarrow> Inl (MacroNotFound name)
           | Inherited \<Rightarrow> Inr None
           | Own macro \<Rightarrow>
               if length h \<le> macro then Inl (MacroNotFound name)
               else defaultFormatOperator h macro (visit w meta))))"
  by pat_completeness auto

termination
proof -
  have step: "card ({..<length h} - set (visited (visit w meta)))
      < card ({..<length h} - set (visited meta))"
    if "w \<notin> set (visited meta)" and "\<not> length h \<le> w"
    for h :: store and w meta
  proof (rule psubset_card_mono)
    show "finite ({..<length h} - set (visited meta))" by simp
    have "w \<in> {..<length h} - set (visited meta)" using that by simp
    moreover have "w \<notin> {..<length h} - set (visited (visit w meta))"
      by (simp add: visit_def)
    moreover have "{..<length h} - set (visited (visit w meta)) \<subseteq> {..<length h} - set (visited meta)"
      by (auto simp: visit_def)
    ultimately show "{..<length h} - set (visited (visit w meta)) \<subset> {..<length h} - set (visited meta)"
      by blast
  qed
  show ?thesis
  proof (relation "measure (\<lambda>(h, w, meta). card ({..<length h} - set (visited meta)))")
    show "wf (measure (\<lambda>(h, w, meta). card ({..<length h} - set (visited meta))))"
      by simp
  qed (simp_all only: in_measure prod.case, (rule step; assumption)+)
qed

declare defaultFormatOperator.simps [simp del]

text \<open>
  The clauses of a statement. \<^verbatim>\<open>if (sql.from)\<close> and \<^verbatim>\<open>if (sql.limit)\<close> test truthiness: the
  empty table name and the limit \<open>0\<close> are skipped like absent ones; \<^verbatim>\<open>if (sql.where)\<close> skips
  \<^verbatim>\<open>undefined\<close>.
\<close>

definition fromPart :: "SqlStatement \<Rightarrow> string list" where
  "fromPart sql = (case stmt_from sql of
      None \<Rightarrow> []
    | Some t \<Rightarrow> if t = [] then [] else [''FROM '' @ t])"

definition limitPart :: "string \<Rightarrow> SqlStatement \<Rightarrow> string list" where
  "limitPart keyword sql = (case stmt_limit sql of
      None \<Rightarrow> []
    | Some n \<Rightarrow> if n = 0 then [] else [keyword @ '' '' @ showInt n])"

definition wherePart :: "store \<Rightarrow> SqlStatement \<Rightarrow> SqlFormatterMetadata \<Rightarrow> error + string list" where
  "wherePart h sql meta = (case stmt_where sql of
      None \<Rightarrow> Inr []
    | Some w \<Rightarrow>
        if length h \<le> w then Inr []
        else (case defaultFormatOperator h w meta of
                Inl e \<Rightarrow> Inl e
              | Inr s \<Rightarrow> Inr [''WHERE '' @ interpolate s]))"

definition defaultFormatStatement ::
    "store \<Rightarrow> SqlStatement \<Rightarrow> SqlFormatterMetadata \<Rightarrow> error + string" where
  "defaultFormatStatement h sql meta = (case wherePart h sql meta of
      Inl e \<Rightarrow> Inl e
    | Inr wp \<Rightarrow>
        Inr (join '' '' ([stmt_type sql, stmt_list sql] @ fromPart sql @ wp @ limitPart ''LIMIT'' sql)))"

definition sqlserverFormatStatement ::
    "store \<Rightarrow> SqlStatement \<Rightarrow> SqlFormatterMetadata \<Rightarrow> error + string" where
  "sqlserverFormatStatement h sql meta = (case wherePart h sql meta of
      Inl e \<Rightarrow> Inl e
    | Inr wp \<Rightarrow>
        Inr (join '' '' ([stmt_type sql] @ limitPart ''TOP'' sql @ [stmt_list sql] @ fromPart sql @ wp)))"

definition defaultFormatter :: SqlFormatter where
  "defaultFormatter =
     \<lparr>formatStatement = defaultFormatStatement,
      formatColumn = (\<lambda>name. [CHR 0x22] @ name @ [CHR 0x22])\<rparr>"

definition builtInFormatters :: "string \<rightharpoonup> SqlFormatter" where
  "builtInFormatters =
     [''sqlserver'' \<mapsto> defaultFormatter\<lparr>formatStatement := sqlserverFormatStatement\<rparr>,
      ''postgres'' \<mapsto> defaultFormatter,
      ''mysql'' \<mapsto> defaultFormatter\<lparr>formatColumn := (\<lambda>name. [CHR 0x60] @ name @ [CHR 0x60])\<rparr>]"

section \<open>The transpiler\<close>

text \<open>
  \<^verbatim>\<open>createSqlTranspiler(options).generateSql\<close>; the store is the heap at the time of the
  call. Whatever is thrown under \<^verbatim>\<open>try\<close> is an \<^verbatim>\<open>Error\<close> and becomes the failure. A dialect
  name that the registry inherits from \<^verbatim>\<open>Object.prototype\<close> resolves to a member without
  \<^verbatim>\<open>formatStatement\<close>, and the call of \<^verbatim>\<open>undefined\<close> under \<^verbatim>\<open>try\<close> throws a \<^verbatim>\<open>TypeError\<close>.
\<close>

definition macrosOrDefault :: "SqlTranspilerOptions \<Rightarrow> (string \<rightharpoonup> addr)" where
  "macrosOrDefault options = (case opt_macros options of None \<Rightarrow> Map.empty | Some ms \<Rightarrow> ms)"

definition formattersOrDefault :: "SqlTranspilerOptions \<Rightarrow> (string \<rightharpoonup> SqlFormatter)" where
  "formattersOrDefault options =
     (case opt_formatters options of None \<Rightarrow> builtInFormatters | Some fs \<Rightarrow> fs)"

text \<open>\<^verbatim>\<open>{ formatter, fields, macros, visited: [] }\<close>\<close>

definition metadata ::
    "SqlFormatter \<Rightarrow> (int \<rightharpoonup> string) \<Rightarrow> (string \<rightharpoonup> addr) \<Rightarrow> SqlFormatterMetadata" where
  "metadata fmt flds ms =
     \<lparr>formatter = formatColumn fmt, fields' = flds, macros = ms, visited = []\<rparr>"

definition generateSql ::
    "SqlTranspilerOptions \<Rightarrow> store \<Rightarrow> string \<Rightarrow> (int \<rightharpoonup> string) \<Rightarrow> SqlQuery \<Rightarrow> Result" where
  "generateSql options h dialect flds query =
    (case getProperty (formattersOrDefault options) dialect of
       Missing \<Rightarrow> \<lparr>success = False, error = Some (UnknownDialect dialect), data = None\<rparr>
     | Inherited \<Rightarrow> \<lparr>success = False, error = Some TypeError, data = None\<rparr>
     | Own fmt \<Rightarrow>
        (case formatStatement fmt h
                \<lparr>stmt_type = ''SELECT'', stmt_list = ''*'', stmt_from = tableName options,
                 stmt_where = query_where query, stmt_limit = query_limit query\<rparr>
                (metadata fmt flds (macrosOrDefault options)) of
           Inl e \<Rightarrow> \<lparr>success = False, error = Some e, data = None\<rparr>
         | Inr sqlStr \<Rightarrow> \<lparr>success = True, error = None, data = Some (sqlStr @ '';'')\<rparr>))"

section \<open>Ancestors\<close>

text \<open>
  The operators that rendering \<open>w\<close> descends into: the clauses of \<^verbatim>\<open>and\<close>, \<^verbatim>\<open>or\<close> and
  \<^verbatim>\<open>not\<close>, and the body a macro reference resolves to.
\<close>

definition children :: "store \<Rightarrow> (string \<rightharpoonup> addr) \<Rightarrow> addr \<Rightarrow> addr list" where
  "children h ms w =
     (if length h \<le> w then []
      else (case h ! w of
              OpBool sign c1 c2 \<Rightarrow> [c1, c2]
            | OpNot c \<Rightarrow> [c]
            | OpMacro name \<Rightarrow>
                (case getProperty ms name of
                   Own macro \<Rightarrow> if length h \<le> macro then [] else [macro]
                 | _ \<Rightarrow> [])
            | _ \<Rightarrow> []))"





section \<open>Inlining macro references\<close>

text \<open>
  A store is acyclic when its operators can be ranked so that every child ranks below
  its parent.
\<close>

definition acyclicBy :: "(addr \<Rightarrow> nat) \<Rightarrow> store \<Rightarrow> (string \<rightharpoonup> addr) \<Rightarrow> bool" where
  "acyclicBy rank h ms = list_all (\<lambda>w. list_all (\<lambda>c. rank c < rank w) (children h ms w)) [0..<length h]"

definition macroBody :: "store \<Rightarrow> (string \<rightharpoonup> addr) \<Rightarrow> addr \<Rightarrow> addr option" where
  "macroBody h ms c =
     (if length h \<le> c then None
      else (case h ! c of
              OpMacro name \<Rightarrow>
                (case getProperty ms name of
                   Own macro \<Rightarrow> if length h \<le> macro then None else Some macro
                 | _ \<Rightarrow> None)
            | _ \<Rightarrow> None))"

text \<open>
  \<open>inlinedRef h ms underBool c c'\<close>: the reference \<open>c'\<close> is \<open>c\<close>, or \<open>c\<close> is a macro reference
  and \<open>c'\<close> is the body it resolves to. Under \<^verbatim>\<open>and\<close>/\<^verbatim>\<open>or\<close> the body must not itself be an
  \<^verbatim>\<open>and\<close>/\<^verbatim>\<open>or\<close>. \<open>inlinedNode\<close> inlines in the clauses of one operator, and two stores are
  related by \<open>list_all2 (inlinedNode h ms)\<close> when the second inlines references of the first.
\<close>

definition inlinedRef :: "store \<Rightarrow> (string \<rightharpoonup> addr) \<Rightarrow> bool \<Rightarrow> addr \<Rightarrow> addr \<Rightarrow> bool" where
  "inlinedRef h ms underBool c c' =
     (c' = c \<or> (macroBody h ms c = Some c' \<and> \<not> (underBool \<and> needsWrapped h c')))"

definition inlinedNode :: "store \<Rightarrow> (string \<rightharpoonup> addr) \<Rightarrow> SqlOperator \<Rightarrow> SqlOperator \<Rightarrow> bool" where
  "inlinedNode h ms node node' = (case node of
      OpBool sign c1 c2 \<Rightarrow>
        (case node' of
           OpBool sign' c1' c2' \<Rightarrow>
             sign' = sign \<and> inlinedRef h ms True c1 c1' \<and> inlinedRef h ms True c2 c2'
         | _ \<Rightarrow> False)
    | OpNot c \<Rightarrow> (case node' of OpNot c' \<Rightarrow> inlinedRef h ms False c c' | _ \<Rightarrow> False)
    | _ \<Rightarrow> node' = node)"

section \<open>Examples\<close>

text \<open>The field map and the transpiler of the repository's tests.\<close>

definition exampleFields :: "int \<rightharpoonup> string" where
  "exampleFields = [1 \<mapsto> ''id'', 2 \<mapsto> ''name'', 3 \<mapsto> ''date_joined'', 4 \<mapsto> ''age'']"

definition exampleOptions :: SqlTranspilerOptions where
  "exampleOptions = \<lparr>tableName = Some ''data'', opt_macros = None, opt_formatters = None\<rparr>"

definition exampleMeta :: SqlFormatterMetadata where
  "exampleMeta = metadata defaultFormatter exampleFields Map.empty"

text \<open>
  The macros of the test \<^verbatim>\<open>supports nested macros\<close>, with their bodies at the addresses 1,
  2 and 3 of a store; the operators at 0, 7 and 8 are where-expressions:
  \<^verbatim>\<open>['not', ['macro', 'is_adult_joe']]\<close>, the clause \<^verbatim>\<open>['<', ['field', 1], 5]\<close> and the
  where-expression \<^verbatim>\<open>['and', ['<', ['field', 1], 5], ['macro', 'is_adult_joe']]\<close> of the test.
\<close>

definition exampleMacroOptions :: SqlTranspilerOptions where
  "exampleMacroOptions =
     \<lparr>tableName = Some ''data'',
      opt_macros = Some [''is_joe'' \<mapsto> 1, ''is_adult'' \<mapsto> 2, ''is_adult_joe'' \<mapsto> 3],
      opt_formatters = None\<rparr>"

definition exampleMacroStore :: store where
  "exampleMacroStore =
     [OpNot 6,
      OpEq Eq (ValField 2) (ValString ''joe'') [],
      OpCmp Gt (ValField 4) (ValNumber 18),
      OpBool And 4 5,
      OpMacro ''is_joe'',
      OpMacro ''is_adult'',
      OpMacro ''is_adult_joe'',
      OpCmp Lt (ValField 1) (ValNumber 5),
      OpBool And 7 6]"

definition exampleRank :: "addr \<Rightarrow> nat" where
  "exampleRank w = [4, 0, 0, 2, 1, 1, 3, 0, 4] ! w"

section \<open>Basic facts\<close>

text \<open>Entering an operator changes the ancestor path only; values are rendered without it.\<close>

lemma visited_visit [simp]: "visited (visit w meta) = visited meta @ [w]"
  by (simp add: visit_def)

lemma fields_visit [simp]: "fields' (visit w meta) = fields' meta"
  by (simp add: visit_def)

lemma macros_visit [simp]: "macros (visit w meta) = macros meta"
  by (simp add: visit_def)

lemma formatter_visit [simp]: "formatter (visit w meta) = formatter meta"
  by (simp add: visit_def)

lemma formatValue_visit [simp]: "formatValue v (visit w meta) = formatValue v meta"
  by (simp add: formatValue_def split: SqlValue.split option.split)

lemma formatValues_visit [simp]: "formatValues vs (visit w meta) = formatValues vs meta"
  by (induction vs) (simp_all split: sum.split)

lemma fromPart_limit [simp]: "fromPart (sql\<lparr>stmt_limit := l\<rparr>) = fromPart sql"
  by (simp add: fromPart_def)

lemma wherePart_limit [simp]: "wherePart h (sql\<lparr>stmt_limit := l\<rparr>) meta = wherePart h sql meta"
  by (simp add: wherePart_def)

lemma limitPart_absent:
  "limitPart keyword (sql\<lparr>stmt_limit := None\<rparr>) = []"
  "limitPart keyword (sql\<lparr>stmt_limit := Some 0\<rparr>) = []"
  by (simp_all add: limitPart_def)

lemma getProperty_Own [simp]: "getProperty obj name = Own v \<longleftrightarrow> obj name = Some v"
  by (simp add: getProperty_def split: option.split)

lemma getProperty_Some [simp]: "obj name = Some v \<Longrightarrow> getProperty obj name = Own v"
  by simp

lemma interpolate_Some [simp]: "interpolate (Some s) = s"
  by (simp add: interpolate_def)

lemma joinElement_Some [simp]: "joinElement (Some s) = s"
  by (simp add: joinElement_def)

lemma formatValues_map:
  "formatValues vs meta = Inr ts \<longleftrightarrow> map (\<lambda>v. formatValue v meta) vs = map Inr ts"
proof (induction vs arbitrary: ts)
  case Nil
  then show ?case by auto
next
  case (Cons v vs)
  show ?case
  proof (cases ts)
    case Nil
    then show ?thesis by (simp split: sum.splits)
  next
    case (Cons t ts')
    with Cons.IH [of ts'] show ?thesis by (auto split: sum.splits)
  qed
qed

lemma builtInFormatters_cases:
  assumes "builtInFormatters dialect = Some fmt"
  shows "formatStatement fmt = defaultFormatStatement \<or> formatStatement fmt = sqlserverFormatStatement"
  using assms by (auto simp: builtInFormatters_def defaultFormatter_def split: if_splits)

section \<open>Values and statements\<close>

text \<open>
  Claim C10. A field map entry whose column name is the empty string counts as an unknown
  field: rendering a reference to its number fails with \<open>UnknownField\<close>, and no quoted
  empty identifier is produced.
\<close>

theorem empty_column_name_is_unknown_field:
  assumes "fields' meta key = Some []"
  shows "formatValue (ValField key) meta = Inl (UnknownField key)"
  using assms by (simp add: formatValue_def)

theorem empty_column_name_is_unknown_field_witness:
  "fields' (exampleMeta\<lparr>fields' := [5 \<mapsto> '''']\<rparr>) 5 = Some []
   \<and> formatValue (ValField 5) (exampleMeta\<lparr>fields' := [5 \<mapsto> '''']\<rparr>) = Inl (UnknownField 5)"
proof -
  have h: "fields' (exampleMeta\<lparr>fields' := [5 \<mapsto> '''']\<rparr>) 5 = Some []" by simp
  show ?thesis using h empty_column_name_is_unknown_field [OF h] by simp
qed

text \<open>
  Claim C9. With the limit \<open>0\<close> the statement renderer of every built-in formatter renders
  the statement it renders without a limit: neither \<^verbatim>\<open>LIMIT\<close> nor \<^verbatim>\<open>TOP\<close> appears.
\<close>

theorem zero_limit_renders_no_clause:
  assumes "builtInFormatters dialect = Some fmt"
  shows "formatStatement fmt h (sql\<lparr>stmt_limit := Some 0\<rparr>) meta
       = formatStatement fmt h (sql\<lparr>stmt_limit := None\<rparr>) meta"
  using builtInFormatters_cases [OF assms]
  by (auto simp: defaultFormatStatement_def sqlserverFormatStatement_def limitPart_absent
      split: sum.split)

theorem zero_limit_renders_no_clause_witness:
  "builtInFormatters ''sqlserver'' = Some (defaultFormatter\<lparr>formatStatement := sqlserverFormatStatement\<rparr>)
   \<and> sqlserverFormatStatement []
        \<lparr>stmt_type = ''SELECT'', stmt_list = ''*'', stmt_from = Some ''data'',
         stmt_where = None, stmt_limit = Some 0\<rparr> exampleMeta
     = Inr ''SELECT * FROM data''"
proof -
  have b: "builtInFormatters ''sqlserver''
      = Some (defaultFormatter\<lparr>formatStatement := sqlserverFormatStatement\<rparr>)"
    by (simp add: builtInFormatters_def)
  have "sqlserverFormatStatement []
        \<lparr>stmt_type = ''SELECT'', stmt_list = ''*'', stmt_from = Some ''data'',
         stmt_where = None, stmt_limit = None\<rparr> exampleMeta = Inr ''SELECT * FROM data''"
    by (simp add: sqlserverFormatStatement_def wherePart_def limitPart_def fromPart_def)
  with b zero_limit_renders_no_clause [OF b, of "[]"
      "\<lparr>stmt_type = ''SELECT'', stmt_list = ''*'', stmt_from = Some ''data'',
         stmt_where = None, stmt_limit = None\<rparr>" exampleMeta]
  show ?thesis by simp
qed

section \<open>One step of the operator renderer\<close>

lemma render_circular:
  "w \<in> set (visited meta) \<Longrightarrow> defaultFormatOperator h w meta = Inl CircularDependency"
  by (simp add: defaultFormatOperator.simps)

lemma render_undefined:
  "w \<notin> set (visited meta) \<Longrightarrow> length h \<le> w \<Longrightarrow> defaultFormatOperator h w meta = Inl TypeError"
  by (simp add: defaultFormatOperator.simps)

lemma render_not:
  assumes "w < length h" and "w \<notin> set (visited meta)" and "h ! w = OpNot c"
  shows "defaultFormatOperator h w meta =
     (case defaultFormatOperator h c (visit w meta) of
        Inl e \<Rightarrow> Inl e
      | Inr s \<Rightarrow> Inr (Some (''NOT ('' @ interpolate s @ '')'')))"
  using assms by (subst defaultFormatOperator.simps) (simp cong: sum.case_cong)

lemma toUpperCase_tag:
  "toUpperCase ''and'' = ''AND''"
  "toUpperCase ''or'' = ''OR''"
  by code_simp+

lemma needsWrapped_iff:
  "needsWrapped h c \<longleftrightarrow> c < length h \<and> (\<exists>sign c1 c2. h ! c = OpBool sign c1 c2)"
proof (cases "h ! c" rule: tag.cases)
qed (auto simp: needsWrapped_def)

lemma render_bool:
  assumes "w < length h" and "w \<notin> set (visited meta)" and "h ! w = OpBool sign c1 c2"
  shows "defaultFormatOperator h w meta =
     (case defaultFormatOperator h c1 (visit w meta) of
        Inl e \<Rightarrow> Inl e
      | Inr s1 \<Rightarrow>
         (case defaultFormatOperator h c2 (visit w meta) of
            Inl e \<Rightarrow> Inl e
          | Inr s2 \<Rightarrow>
              Inr (Some (joinElement (wrapped h c1 s1)
                @ (if sign = And then '' AND '' else '' OR '')
                @ joinElement (wrapped h c2 s2)))))"
  using assms by (subst defaultFormatOperator.simps) (cases sign; simp add: toUpperCase_tag cong: sum.case_cong)

lemma render_macro:
  assumes "w < length h" and "w \<notin> set (visited meta)" and "h ! w = OpMacro name"
  shows "defaultFormatOperator h w meta =
     (case getProperty (macros meta) name of
        Missing \<Rightarrow> Inl (MacroNotFound name)
      | Inherited \<Rightarrow> Inr None
      | Own macro \<Rightarrow>
          if length h \<le> macro then Inl (MacroNotFound name)
          else defaultFormatOperator h macro (visit w meta))"
  using assms by (subst defaultFormatOperator.simps) (simp cong: property.case_cong)

lemma render_field:
  assumes "w < length h" and "w \<notin> set (visited meta)" and "h ! w = OpField key"
  shows "defaultFormatOperator h w meta =
     (case formatValue (ValField key) meta of Inl e \<Rightarrow> Inl e | Inr s \<Rightarrow> Inr (Some s))"
  using assms by (subst defaultFormatOperator.simps) (simp cong: sum.case_cong)

lemma render_cmp:
  assumes "w < length h" and "w \<notin> set (visited meta)" and "h ! w = OpCmp sign a b"
  shows "defaultFormatOperator h w meta =
     (case formatValue a meta of
        Inl e \<Rightarrow> Inl e
      | Inr sa \<Rightarrow>
         (case formatValue b meta of
            Inl e \<Rightarrow> Inl e
          | Inr sb \<Rightarrow> Inr (Some (sa @ '' '' @ cmpSign sign @ '' '' @ sb))))"
  using assms by (subst defaultFormatOperator.simps) (simp cong: sum.case_cong)

lemma render_empty:
  assumes "w < length h" and "w \<notin> set (visited meta)" and "h ! w = OpEmpty sign a"
  shows "defaultFormatOperator h w meta =
     (case formatValue a meta of
        Inl e \<Rightarrow> Inl e
      | Inr sa \<Rightarrow> Inr (Some (sa @ (if sign = IsEmpty then '' IS NULL'' else '' IS NOT NULL''))))"
  using assms by (subst defaultFormatOperator.simps) (simp cong: sum.case_cong)

lemma render_eq_one:
  assumes "w < length h" and "w \<notin> set (visited meta)" and "h ! w = OpEq sign a b []"
  shows "defaultFormatOperator h w meta =
     (case formatValue a meta of
        Inl e \<Rightarrow> Inl e
      | Inr sa \<Rightarrow>
         (case formatValue b meta of
            Inl e \<Rightarrow> Inl e
          | Inr sb \<Rightarrow>
              Inr (Some (sa @ '' '' @
                (if b = ValNull then (if sign = Ne then ''IS NOT'' else ''IS'')
                 else (if sign = Ne then ''<>'' else ''='')) @ '' '' @ sb))))"
  using assms by (subst defaultFormatOperator.simps) (simp cong: sum.case_cong)

lemma render_eq_many:
  assumes "w < length h" and "w \<notin> set (visited meta)" and "h ! w = OpEq sign a b bs"
    and "bs \<noteq> []"
  shows "defaultFormatOperator h w meta =
     (case formatValue a meta of
        Inl e \<Rightarrow> Inl e
      | Inr sa \<Rightarrow>
         (case formatValues (b # bs) meta of
            Inl e \<Rightarrow> Inl e
          | Inr ss \<Rightarrow>
              Inr (Some (sa @ '' '' @ (if sign = Ne then ''NOT IN'' else ''IN'')
                @ '' ('' @ join '', '' ss @ '')''))))"
  using assms by (subst defaultFormatOperator.simps) (simp del: formatValues.simps cong: sum.case_cong)

section \<open>Boolean operators\<close>

text \<open>
  Claim C6. A \<^verbatim>\<open>not\<close> operator renders the text of its single clause as
  \<^verbatim>\<open>NOT (<clause>)\<close>, whatever the clause is; when the clause fails, so does the operator,
  with the same error. The text of the clause is what the template literal prints for
  the value the clause renders.
\<close>

theorem not_wraps_its_clause:
  assumes "w < length h" and "w \<notin> set (visited meta)" and "h ! w = OpNot c"
  shows "defaultFormatOperator h w meta =
     (case defaultFormatOperator h c (visit w meta) of
        Inl e \<Rightarrow> Inl e
      | Inr clauseStr \<Rightarrow> Inr (Some (''NOT ('' @ interpolate clauseStr @ '')'')))"
  using assms by (rule render_not)

theorem not_wraps_its_clause_witness:
  "0 < length [OpNot 1, OpCmp Gt (ValField 4) (ValNumber 35)]
   \<and> 0 \<notin> set (visited exampleMeta)
   \<and> [OpNot 1, OpCmp Gt (ValField 4) (ValNumber 35)] ! 0 = OpNot 1
   \<and> defaultFormatOperator [OpNot 1, OpCmp Gt (ValField 4) (ValNumber 35)] 0 exampleMeta
       = Inr (Some (''NOT ('' @ [CHR 0x22] @ ''age'' @ [CHR 0x22] @ '' > 35)''))"
proof -
  let ?h = "[OpNot 1, OpCmp Gt (ValField 4) (ValNumber 35)]"
  have a: "0 < length ?h" by simp
  have b: "0 \<notin> set (visited exampleMeta)" by (simp add: exampleMeta_def metadata_def)
  have c: "?h ! 0 = OpNot 1" by simp
  have d: "defaultFormatOperator ?h 1 (visit 0 exampleMeta)
      = Inr (Some ([CHR 0x22] @ ''age'' @ [CHR 0x22] @ '' > 35''))"
    by code_simp
  show ?thesis using a b c not_wraps_its_clause [OF a b c] d by simp
qed

text \<open>
  Claim C4. In an \<^verbatim>\<open>and\<close> or \<^verbatim>\<open>or\<close> operator a clause whose own tag is \<^verbatim>\<open>and\<close> or \<^verbatim>\<open>or\<close>
  is put in parentheses, a clause with any other tag is left as it is, and the two are
  joined by \<^verbatim>\<open> AND \<close> or \<^verbatim>\<open> OR \<close>. A clause is the value it renders, as the template
  literal prints it inside the parentheses and as \<^verbatim>\<open>join\<close> prints it without them.
\<close>

theorem bool_clauses_parenthesised:
  assumes "w < length h" and "w \<notin> set (visited meta)" and "h ! w = OpBool sign c1 c2"
    and "defaultFormatOperator h c1 (visit w meta) = Inr s1"
    and "defaultFormatOperator h c2 (visit w meta) = Inr s2"
  shows "defaultFormatOperator h w meta =
     Inr (Some
       ((if tag (h ! c1) \<in> {''and'', ''or''} then ''('' @ interpolate s1 @ '')'' else joinElement s1)
        @ (if sign = And then '' AND '' else '' OR '')
        @ (if tag (h ! c2) \<in> {''and'', ''or''} then ''('' @ interpolate s2 @ '')'' else joinElement s2)))"
proof -
  have in_store: "c < length h" if "defaultFormatOperator h c (visit w meta) = Inr s" for c s
  proof (rule ccontr)
    assume "\<not> c < length h"
    then have "defaultFormatOperator h c (visit w meta) = Inl TypeError
        \<or> defaultFormatOperator h c (visit w meta) = Inl CircularDependency"
      by (cases "c \<in> set (visited (visit w meta))") (simp_all add: render_circular render_undefined)
    with that show False by auto
  qed
  have "joinElement (wrapped h c s) =
      (if tag (h ! c) \<in> {''and'', ''or''} then ''('' @ interpolate s @ '')'' else joinElement s)"
    if "c < length h" for c s
    using that by (simp add: wrapped_def needsWrapped_def)
  with in_store assms(4,5) show ?thesis
    by (simp add: render_bool [OF assms(1-3)])
qed

theorem bool_clauses_parenthesised_witness:
  "defaultFormatOperator
     [OpBool And 1 2, OpEq Ne (ValField 3) ValNull [], OpBool Or 3 4,
      OpCmp Gt (ValField 4) (ValNumber 25), OpEq Eq (ValField 2) (ValString ''Jerry'') []]
     0 exampleMeta
   = Inr (Some ([CHR 0x22] @ ''date_joined'' @ [CHR 0x22] @ '' IS NOT NULL AND (''
          @ [CHR 0x22] @ ''age'' @ [CHR 0x22] @ '' > 25 OR ''
          @ [CHR 0x22] @ ''name'' @ [CHR 0x22] @ '' = '' @ [CHR 0x27] @ ''Jerry'' @ [CHR 0x27] @ '')''))"
proof -
  let ?h = "[OpBool And 1 2, OpEq Ne (ValField 3) ValNull [], OpBool Or 3 4,
      OpCmp Gt (ValField 4) (ValNumber 25), OpEq Eq (ValField 2) (ValString ''Jerry'') []]"
  have a: "0 < length ?h" by simp
  have b: "0 \<notin> set (visited exampleMeta)" by (simp add: exampleMeta_def metadata_def)
  have c: "?h ! 0 = OpBool And 1 2" by simp
  have d: "defaultFormatOperator ?h 1 (visit 0 exampleMeta)
      = Inr (Some ([CHR 0x22] @ ''date_joined'' @ [CHR 0x22] @ '' IS NOT NULL''))"
    by code_simp
  have e: "defaultFormatOperator ?h 2 (visit 0 exampleMeta)
      = Inr (Some ([CHR 0x22] @ ''age'' @ [CHR 0x22] @ '' > 25 OR ''
          @ [CHR 0x22] @ ''name'' @ [CHR 0x22] @ '' = '' @ [CHR 0x27] @ ''Jerry'' @ [CHR 0x27]))"
    by code_simp
  show ?thesis using bool_clauses_parenthesised [OF a b c d e] by simp
qed

text \<open>
  Claim C7. The same operator in both clauses of an \<^verbatim>\<open>and\<close> or \<^verbatim>\<open>or\<close> is no circular
  dependency. Both clauses are rendered with the same ancestor path, the path of the
  parent extended by the parent: when the operator renders there, the parent renders,
  with the text of the operator twice; when it fails there, the parent fails with its
  error.
\<close>

theorem sibling_reuse_renders_twice:
  assumes "w < length h" and "w \<notin> set (visited meta)" and "h ! w = OpBool sign x x"
  shows "defaultFormatOperator h w meta =
     (case defaultFormatOperator h x (visit w meta) of
        Inl e \<Rightarrow> Inl e
      | Inr s \<Rightarrow>
          Inr (Some (joinElement (wrapped h x s)
            @ (if sign = And then '' AND '' else '' OR '')
            @ joinElement (wrapped h x s))))"
  by (simp add: render_bool [OF assms] split: sum.split)

theorem sibling_reuse_renders_twice_witness:
  "defaultFormatOperator [OpField 1, OpBool And 0 0] 1 exampleMeta
   = Inr (Some ([CHR 0x22] @ ''id'' @ [CHR 0x22] @ '' AND '' @ [CHR 0x22] @ ''id'' @ [CHR 0x22]))"
proof -
  let ?h = "[OpField 1, OpBool And 0 0]"
  have a: "1 < length ?h" by simp
  have b: "1 \<notin> set (visited exampleMeta)" by (simp add: exampleMeta_def metadata_def)
  have c: "?h ! 1 = OpBool And 0 0" by simp
  have d: "defaultFormatOperator ?h 0 (visit 1 exampleMeta)
      = Inr (Some ([CHR 0x22] @ ''id'' @ [CHR 0x22]))"
    by code_simp
  have e: "wrapped ?h 0 s = s" for s
    by (simp add: wrapped_def needsWrapped_def)
  show ?thesis using sibling_reuse_renders_twice [OF a b c] d by (simp add: e)
qed

section \<open>Equality\<close>

text \<open>
  Claim C1. An \<^verbatim>\<open>=\<close> or \<^verbatim>\<open>!=\<close> operator whose operand and comparison values render:
  with one comparison value that is null it renders \<^verbatim>\<open>IS NULL\<close> or \<^verbatim>\<open>IS NOT NULL\<close>; with
  one comparison value that is not null it renders \<^verbatim>\<open>=\<close> or \<^verbatim>\<open><>\<close>; with more than one it
  renders \<^verbatim>\<open>IN (...)\<close> or \<^verbatim>\<open>NOT IN (...)\<close> over the texts of the comparison values, joined by
  commas in the order of the operands.
\<close>

theorem equality_rendering:
  assumes "w < length h" and "w \<notin> set (visited meta)" and "h ! w = OpEq sign a b bs"
    and "formatValue a meta = Inr sa"
    and "map (\<lambda>v. formatValue v meta) (b # bs) = map Inr ts"
  shows "defaultFormatOperator h w meta = Inr (Some
     (if bs = [] then
        (if b = ValNull then sa @ (if sign = Ne then '' IS NOT NULL'' else '' IS NULL'')
         else sa @ (if sign = Ne then '' <> '' else '' = '') @ hd ts)
      else sa @ (if sign = Ne then '' NOT IN ('' else '' IN ('') @ join '', '' ts @ '')''))"
proof (cases "bs = []")
  case True
  from assms(5) True have b: "formatValue b meta = Inr (hd ts)"
    by (cases ts) auto
  have "formatValue ValNull meta = Inr ''NULL''"
    by (simp add: formatValue_def)
  with b have "hd ts = ''NULL''" if "b = ValNull"
    using that by simp
  with True b assms(4) show ?thesis
    using render_eq_one [of w h meta sign a b] assms(1-3) by simp
next
  case False
  from assms(5) have "formatValues (b # bs) meta = Inr ts"
    by (simp only: formatValues_map)
  with False assms(4) show ?thesis
    using render_eq_many [OF assms(1-3)] by simp
qed

theorem equality_rendering_witness:
  "defaultFormatOperator [OpEq Eq (ValField 3) ValNull []] 0 exampleMeta
     = Inr (Some ([CHR 0x22] @ ''date_joined'' @ [CHR 0x22] @ '' IS NULL''))
   \<and> defaultFormatOperator [OpEq Ne (ValField 3) (ValString ''2015-11-01'') []] 0 exampleMeta
     = Inr (Some ([CHR 0x22] @ ''date_joined'' @ [CHR 0x22] @ '' <> '' @ [CHR 0x27] @ ''2015-11-01'' @ [CHR 0x27]))
   \<and> defaultFormatOperator [OpEq Eq (ValField 4) (ValNumber 25) [ValNumber 26, ValNumber 27]] 0 exampleMeta
     = Inr (Some ([CHR 0x22] @ ''age'' @ [CHR 0x22] @ '' IN (25, 26, 27)''))"
proof -
  have v: "0 \<notin> set (visited exampleMeta)" by (simp add: exampleMeta_def metadata_def)
  have f3: "formatValue (ValField 3) exampleMeta = Inr ([CHR 0x22] @ ''date_joined'' @ [CHR 0x22])"
    by code_simp
  have f4: "formatValue (ValField 4) exampleMeta = Inr ([CHR 0x22] @ ''age'' @ [CHR 0x22])"
    by code_simp
  have n: "map (\<lambda>v. formatValue v exampleMeta) [ValNull] = map Inr [''NULL'']"
    by code_simp
  have d: "map (\<lambda>v. formatValue v exampleMeta) [ValString ''2015-11-01'']
      = map Inr [[CHR 0x27] @ ''2015-11-01'' @ [CHR 0x27]]"
    by code_simp
  have l: "map (\<lambda>v. formatValue v exampleMeta) [ValNumber 25, ValNumber 26, ValNumber 27]
      = map Inr [''25'', ''26'', ''27'']"
    by code_simp
  have "defaultFormatOperator [OpEq Eq (ValField 3) ValNull []] 0 exampleMeta
     = Inr (Some ([CHR 0x22] @ ''date_joined'' @ [CHR 0x22] @ '' IS NULL''))"
    using equality_rendering [OF _ v _ f3 n, of "[OpEq Eq (ValField 3) ValNull []]" Eq] by simp
  moreover have "defaultFormatOperator [OpEq Ne (ValField 3) (ValString ''2015-11-01'') []] 0 exampleMeta
     = Inr (Some ([CHR 0x22] @ ''date_joined'' @ [CHR 0x22] @ '' <> '' @ [CHR 0x27] @ ''2015-11-01'' @ [CHR 0x27]))"
    using equality_rendering [OF _ v _ f3 d,
        of "[OpEq Ne (ValField 3) (ValString ''2015-11-01'') []]" Ne] by simp
  moreover have "defaultFormatOperator [OpEq Eq (ValField 4) (ValNumber 25) [ValNumber 26, ValNumber 27]] 0 exampleMeta
     = Inr (Some ([CHR 0x22] @ ''age'' @ [CHR 0x22] @ '' IN (25, 26, 27)''))"
    using equality_rendering [OF _ v _ f4 l,
        of "[OpEq Eq (ValField 4) (ValNumber 25) [ValNumber 26, ValNumber 27]]" Eq] by simp
  ultimately show ?thesis by simp
qed

section \<open>The result of a call\<close>

lemma visited_metadata [simp]: "visited (metadata fmt flds ms) = []"
  by (simp add: metadata_def)

lemma macros_metadata [simp]: "macros (metadata fmt flds ms) = ms"
  by (simp add: metadata_def)

lemma fields_metadata [simp]: "fields' (metadata fmt flds ms) = flds"
  by (simp add: metadata_def)





section \<open>Unknown references\<close>

text \<open>
  A field number without an entry in the field map fails with \<open>UnknownField\<close>, and a
  macro name that the macro table neither has nor inherits fails with \<open>MacroNotFound\<close>.
\<close>

lemma unknown_field_fails:
  assumes "fields' meta key = None"
  shows "formatValue (ValField key) meta = Inl (UnknownField key)"
  using assms by (simp add: formatValue_def)

lemma missing_macro_fails:
  assumes "w < length h" and "w \<notin> set (visited meta)" and "h ! w = OpMacro name"
    and "getProperty (macros meta) name = Missing"
  shows "defaultFormatOperator h w meta = Inl (MacroNotFound name)"
  using assms by (simp add: render_macro)

text \<open>
  Claim C8. A macro reference whose name is absent from the macro table is to fail with
  \<open>MacroNotFound\<close> and to yield no text. The name \<^verbatim>\<open>toString\<close> is absent from the default,
  empty macro table, which inherits it from \<^verbatim>\<open>Object.prototype\<close>: the call with the
  where-expression \<^verbatim>\<open>['macro', 'toString']\<close> does not fail, it returns a success whose
  text has \<^verbatim>\<open>undefined\<close> for the where-expression.
\<close>

theorem inherited_macro_name_renders_undefined:
  "macrosOrDefault exampleOptions ''toString'' = None
   \<and> generateSql exampleOptions [OpMacro ''toString''] ''postgres'' exampleFields
        \<lparr>query_limit = None, query_where = Some 0\<rparr>
     = \<lparr>success = True, error = None, data = Some ''SELECT * FROM data WHERE undefined;''\<rparr>"
  by code_simp

section \<open>Circular dependencies\<close>











section \<open>Macro references and their bodies\<close>

lemma acyclicBy_child:
  assumes "acyclicBy rank h ms" and "c \<in> set (children h ms w)"
  shows "rank c < rank w"
proof -
  from assms(2) have "w < length h"
    by (cases "w < length h") (auto simp: children_def)
  with assms show ?thesis
    by (auto simp: acyclicBy_def list_all_iff)
qed

lemma macroBody_child:
  assumes "macroBody h ms c = Some c'"
  shows "c' \<in> set (children h ms c)"
  using assms
  by (auto simp: macroBody_def children_def split: if_splits SqlOperator.splits property.splits)

lemma macroBody_node:
  assumes "macroBody h ms c = Some c'"
  obtains name where "c < length h" and "h ! c = OpMacro name" and "ms name = Some c'"
    and "c' < length h"
  using assms
  by (auto simp: macroBody_def split: if_splits SqlOperator.splits property.splits)

lemma inlinedRef_rank:
  assumes "acyclicBy rank h ms" and "c \<in> set (children h ms w)" and "inlinedRef h ms ub c c'"
  shows "rank c' < rank w"
proof -
  have "rank c < rank w"
    using assms(1,2) by (rule acyclicBy_child)
  moreover have "rank c' < rank c" if "macroBody h ms c = Some c'"
    using assms(1) macroBody_child [OF that] by (rule acyclicBy_child)
  ultimately show ?thesis
    using assms(3) by (auto simp: inlinedRef_def)
qed

lemma tag_inlinedNode:
  assumes "inlinedNode h ms node node'"
  shows "tag node' = tag node"
  using assms by (cases node rule: tag.cases) (auto simp: inlinedNode_def split: SqlOperator.splits)

lemma inlined_nth:
  assumes "list_all2 (inlinedNode h ms) h h'" and "w < length h"
  shows "inlinedNode h ms (h ! w) (h' ! w)"
  using assms by (simp add: list_all2_conv_all_nth)

lemma needsWrapped_inlined:
  assumes "list_all2 (inlinedNode h ms) h h'"
  shows "needsWrapped h' c = needsWrapped h c"
proof (cases "c < length h")
  case True
  with assms have "inlinedNode h ms (h ! c) (h' ! c)"
    by (simp add: list_all2_conv_all_nth)
  then have "tag (h' ! c) = tag (h ! c)"
    by (rule tag_inlinedNode)
  with assms show ?thesis
    by (simp add: needsWrapped_def list_all2_lengthD)
next
  case False
  with assms show ?thesis
    by (simp add: needsWrapped_def list_all2_lengthD)
qed

lemma wrapped_inlinedRef:
  assumes "list_all2 (inlinedNode h ms) h h'" and "inlinedRef h ms True c c'"
  shows "wrapped h' c' s = wrapped h c s"
proof (cases "c' = c")
  case True
  with assms(1) show ?thesis
    by (simp add: wrapped_def needsWrapped_inlined)
next
  case False
  with assms(2) have b: "macroBody h ms c = Some c'" and n: "\<not> needsWrapped h c'"
    by (auto simp: inlinedRef_def)
  from b have "\<not> needsWrapped h c"
    by (auto simp: needsWrapped_def elim!: macroBody_node)
  with n assms(1) show ?thesis
    by (simp add: wrapped_def needsWrapped_inlined)
qed

lemma acyclicBy_inlined:
  assumes "acyclicBy rank h ms" and "list_all2 (inlinedNode h ms) h h'"
  shows "acyclicBy rank h' ms"
proof -
  have len: "length h' = length h"
    using assms(2) by (simp add: list_all2_lengthD)
  have "rank c' < rank w" if w: "w < length h" and c': "c' \<in> set (children h' ms w)" for w c'
  proof -
    from assms(2) w have rel: "inlinedNode h ms (h ! w) (h' ! w)"
      by (simp add: list_all2_conv_all_nth)
    have "\<exists>c ub. c \<in> set (children h ms w) \<and> inlinedRef h ms ub c c'"
    proof (cases "h ! w")
      case (OpBool sign c1 c2)
      with rel obtain c1' c2' where "h' ! w = OpBool sign c1' c2'"
        and "inlinedRef h ms True c1 c1'" and "inlinedRef h ms True c2 c2'"
        by (auto simp: inlinedNode_def split: SqlOperator.splits)
      with c' w len OpBool show ?thesis
        by (auto simp: children_def)
    next
      case (OpNot c)
      with rel obtain c1' where "h' ! w = OpNot c1'" and "inlinedRef h ms False c c1'"
        by (auto simp: inlinedNode_def split: SqlOperator.splits)
      with c' w len OpNot show ?thesis
        by (auto simp: children_def)
    next
      case (OpMacro name)
      with rel have "h' ! w = OpMacro name"
        by (simp add: inlinedNode_def)
      with c' w len OpMacro have "c' \<in> set (children h ms w)"
        by (simp add: children_def)
      then show ?thesis
        by (auto simp: inlinedRef_def)
    qed (use rel c' w len in \<open>auto simp: inlinedNode_def children_def\<close>)
    then show ?thesis
      using assms(1) inlinedRef_rank by blast
  qed
  with len show ?thesis
    by (simp add: acyclicBy_def list_all_iff)
qed

lemma formatValue_visited [simp]: "formatValue v (meta\<lparr>visited := vis\<rparr>) = formatValue v meta"
  by (simp add: formatValue_def split: SqlValue.split option.split)

lemma formatValues_visited [simp]: "formatValues vs (meta\<lparr>visited := vis\<rparr>) = formatValues vs meta"
  by (induction vs) (simp_all split: sum.split)

lemma visit_visited: "visit w (meta\<lparr>visited := vis\<rparr>) = (visit w meta)\<lparr>visited := vis @ [w]\<rparr>"
  by (simp add: visit_def)

text \<open>
  In an acyclic store the rendering of an operator depends on the ancestor path only
  through the operators that rank at most as high as the operator itself.
\<close>

lemma render_visited_agree:
  assumes "acyclicBy rank h (macros meta)"
    and "\<forall>x. rank x \<le> rank w \<longrightarrow> (x \<in> set (visited meta) \<longleftrightarrow> x \<in> set vis)"
  shows "defaultFormatOperator h w (meta\<lparr>visited := vis\<rparr>) = defaultFormatOperator h w meta"
  using assms
proof (induction h w meta arbitrary: vis rule: defaultFormatOperator.induct)
  case (1 h w meta)
  show ?case
  proof (cases "w \<in> set (visited meta)")
    case True
    with "1.prems"(2) have "w \<in> set vis" by auto
    with True show ?thesis by (simp add: render_circular)
  next
    case False
    with "1.prems"(2) have fresh: "w \<notin> set vis" by auto
    show ?thesis
    proof (cases "length h \<le> w")
      case True
      with False fresh show ?thesis by (simp add: render_undefined)
    next
      case inside: False
      then have w: "w < length h" by simp
      have ac: "acyclicBy rank h (macros (visit w meta))"
        using "1.prems"(1) by simp
      have agree: "\<forall>x. rank x \<le> rank c \<longrightarrow>
          (x \<in> set (visited (visit w meta)) \<longleftrightarrow> x \<in> set (vis @ [w]))"
        if "c \<in> set (children h (macros meta) w)" for c
      proof -
        have "rank c < rank w"
          using "1.prems"(1) that by (rule acyclicBy_child)
        with "1.prems"(2) show ?thesis by auto
      qed
      have fresh': "w \<notin> set (visited (meta\<lparr>visited := vis\<rparr>))"
        using fresh by simp
      show ?thesis
      proof (cases "h ! w")
        case (OpBool sign c1 c2)
        then have ch: "c1 \<in> set (children h (macros meta) w)" "c2 \<in> set (children h (macros meta) w)"
          using w by (simp_all add: children_def)
        have e1: "defaultFormatOperator h c1 ((visit w meta)\<lparr>visited := vis @ [w]\<rparr>)
            = defaultFormatOperator h c1 (visit w meta)"
          using "1.IH"(1) [OF False inside OpBool ac agree [OF ch(1)]] .
        have e2: "defaultFormatOperator h c2 ((visit w meta)\<lparr>visited := vis @ [w]\<rparr>)
            = defaultFormatOperator h c2 (visit w meta)"
          if "defaultFormatOperator h c1 (visit w meta) = Inr s1" for s1
          using "1.IH"(2) [OF False inside OpBool that ac agree [OF ch(2)]] .
        show ?thesis
          using e1 e2
          by (simp add: render_bool [OF w False OpBool] render_bool [OF w fresh' OpBool]
              visit_visited split: sum.split)
      next
        case (OpNot c)
        then have ch: "c \<in> set (children h (macros meta) w)"
          using w by (simp add: children_def)
        have "defaultFormatOperator h c ((visit w meta)\<lparr>visited := vis @ [w]\<rparr>)
            = defaultFormatOperator h c (visit w meta)"
          using "1.IH"(3) [OF False inside OpNot ac agree [OF ch]] .
        then show ?thesis
          by (simp add: render_not [OF w False OpNot] render_not [OF w fresh' OpNot] visit_visited)
      next
        case (OpMacro name)
        show ?thesis
        proof (cases "macros meta name")
          case None
          then show ?thesis
            by (simp add: render_macro [OF w False OpMacro] render_macro [OF w fresh' OpMacro]
                getProperty_def)
        next
          case (Some macro)
          show ?thesis
          proof (cases "length h \<le> macro")
            case True
            with Some show ?thesis
              by (simp add: render_macro [OF w False OpMacro] render_macro [OF w fresh' OpMacro])
          next
            case body: False
            with Some OpMacro w have ch: "macro \<in> set (children h (macros meta) w)"
              by (simp add: children_def)
            have "defaultFormatOperator h macro ((visit w meta)\<lparr>visited := vis @ [w]\<rparr>)
                = defaultFormatOperator h macro (visit w meta)"
              using "1.IH"(4) [OF False inside OpMacro _ body ac agree [OF ch]] Some by simp
            with Some body show ?thesis
              by (simp add: render_macro [OF w False OpMacro] render_macro [OF w fresh' OpMacro]
                  visit_visited)
          qed
        qed
      next
        case (OpField key)
        then show ?thesis
          by (simp add: render_field [OF w False OpField] render_field [OF w fresh' OpField])
      next
        case (OpCmp sign a b)
        then show ?thesis
          by (simp add: render_cmp [OF w False OpCmp] render_cmp [OF w fresh' OpCmp]
              cong: sum.case_cong)
      next
        case (OpEmpty sign a)
        then show ?thesis
          by (simp add: render_empty [OF w False OpEmpty] render_empty [OF w fresh' OpEmpty])
      next
        case (OpEq sign a b bs)
        show ?thesis
        proof (cases "bs = []")
          case True
          with OpEq have n: "h ! w = OpEq sign a b []" by simp
          show ?thesis
            by (simp add: render_eq_one [OF w False n] render_eq_one [OF w fresh' n]
                cong: sum.case_cong)
        next
          case many: False
          show ?thesis
            by (simp add: render_eq_many [OF w False OpEq many] render_eq_many [OF w fresh' OpEq many]
                del: formatValues.simps cong: sum.case_cong)
        qed
      qed
    qed
  qed
qed

lemma render_body_below_reference:
  assumes "acyclicBy rank h (macros meta)" and "rank c' < rank c"
  shows "defaultFormatOperator h c' (visit c meta) = defaultFormatOperator h c' meta"
proof -
  have "defaultFormatOperator h c' ((visit c meta)\<lparr>visited := visited meta\<rparr>)
      = defaultFormatOperator h c' (visit c meta)"
    using assms by (intro render_visited_agree [where rank = rank]) auto
  moreover have "(visit c meta)\<lparr>visited := visited meta\<rparr> = meta"
    by (simp add: visit_def)
  ultimately show ?thesis by simp
qed

text \<open>
  A reference that is not among the ancestors renders in the inlining store like the
  body that replaces it, once the reference itself renders alike in both stores.
\<close>

lemma render_inlinedRef:
  assumes ac: "acyclicBy rank h (macros meta)"
    and rel: "list_all2 (inlinedNode h (macros meta)) h h'"
    and ref: "inlinedRef h (macros meta) ub c c'"
    and fresh: "c \<notin> set (visited meta)"
    and same: "defaultFormatOperator h' c meta = defaultFormatOperator h c meta"
  shows "defaultFormatOperator h' c' meta = defaultFormatOperator h c meta"
proof (cases "c' = c")
  case True
  with same show ?thesis by simp
next
  case False
  with ref have body: "macroBody h (macros meta) c = Some c'"
    by (auto simp: inlinedRef_def)
  then obtain name where c: "c < length h" and node: "h ! c = OpMacro name"
    and m: "macros meta name = Some c'" and c': "c' < length h"
    by (rule macroBody_node)
  have len: "length h' = length h"
    using rel by (simp add: list_all2_lengthD)
  have node': "h' ! c = OpMacro name"
    using inlined_nth [OF rel c] node by (simp add: inlinedNode_def)
  have "rank c' < rank c"
    using ac macroBody_child [OF body] by (rule acyclicBy_child)
  moreover have "acyclicBy rank h' (macros meta)"
    using ac rel by (rule acyclicBy_inlined)
  ultimately have "defaultFormatOperator h' c' (visit c meta) = defaultFormatOperator h' c' meta"
    by (intro render_body_below_reference)
  moreover have "defaultFormatOperator h' c meta = defaultFormatOperator h' c' (visit c meta)"
    using c c' len m fresh node' by (simp add: render_macro)
  ultimately show ?thesis
    using same by simp
qed

text \<open>
  Rendering in the inlining store: by induction on the rendering in the original store,
  for ancestor paths whose operators all rank above the operator rendered.
\<close>

lemma render_inlined:
  assumes "acyclicBy rank h (macros meta)"
    and "list_all2 (inlinedNode h (macros meta)) h h'"
    and "\<forall>x\<in>set (visited meta). rank w < rank x"
  shows "defaultFormatOperator h' w meta = defaultFormatOperator h w meta"
  using assms
proof (induction h w meta rule: defaultFormatOperator.induct)
  case (1 h w meta)
  note ac = "1.prems"(1) and rel = "1.prems"(2) and anc = "1.prems"(3)
  have len: "length h' = length h"
    using rel by (simp add: list_all2_lengthD)
  show ?case
  proof (cases "w \<in> set (visited meta)")
    case True
    then show ?thesis by (simp add: render_circular)
  next
    case False
    show ?thesis
    proof (cases "length h \<le> w")
      case True
      with False len show ?thesis by (simp add: render_undefined)
    next
      case inside: False
      then have w: "w < length h" and w': "w < length h'"
        using len by simp_all
      have ac_v: "acyclicBy rank h (macros (visit w meta))"
        and rel_v: "list_all2 (inlinedNode h (macros (visit w meta))) h h'"
        using ac rel by simp_all
      have below: "rank c < rank w" if "c \<in> set (children h (macros meta) w)" for c
        using ac that by (rule acyclicBy_child)
      have anc_v: "\<forall>x\<in>set (visited (visit w meta)). rank c < rank x"
        if "c \<in> set (children h (macros meta) w)" for c
        using below [OF that] anc by auto
      have fresh_v: "c \<notin> set (visited (visit w meta))"
        if "c \<in> set (children h (macros meta) w)" for c
        using anc_v [OF that] by auto
      note node' = inlined_nth [OF rel w]
      show ?thesis
      proof (cases "h ! w")
        case (OpBool sign c1 c2)
        with node' obtain c1' c2' where n': "h' ! w = OpBool sign c1' c2'"
          and r1: "inlinedRef h (macros (visit w meta)) True c1 c1'"
          and r2: "inlinedRef h (macros (visit w meta)) True c2 c2'"
          by (auto simp: inlinedNode_def split: SqlOperator.splits)
        from OpBool w have ch: "c1 \<in> set (children h (macros meta) w)"
          "c2 \<in> set (children h (macros meta) w)"
          by (simp_all add: children_def)
        have e1: "defaultFormatOperator h' c1' (visit w meta)
            = defaultFormatOperator h c1 (visit w meta)"
          using ac_v rel_v r1 fresh_v [OF ch(1)]
            "1.IH"(1) [OF False inside OpBool ac_v rel_v anc_v [OF ch(1)]]
          by (rule render_inlinedRef)
        have e2: "defaultFormatOperator h' c2' (visit w meta)
            = defaultFormatOperator h c2 (visit w meta)"
          if "defaultFormatOperator h c1 (visit w meta) = Inr s1" for s1
          using ac_v rel_v r2 fresh_v [OF ch(2)]
            "1.IH"(2) [OF False inside OpBool that ac_v rel_v anc_v [OF ch(2)]]
          by (rule render_inlinedRef)
        have wr: "wrapped h' c1' s = wrapped h c1 s" "wrapped h' c2' s = wrapped h c2 s" for s
          using rel r1 r2 by (simp_all add: wrapped_inlinedRef [where ms = "macros meta"])
        show ?thesis
          using e1 e2
          by (simp add: render_bool [OF w False OpBool] render_bool [OF w' False n'] wr
              split: sum.split)
      next
        case (OpNot c)
        with node' obtain c' where n': "h' ! w = OpNot c'"
          and r: "inlinedRef h (macros (visit w meta)) False c c'"
          by (auto simp: inlinedNode_def split: SqlOperator.splits)
        from OpNot w have ch: "c \<in> set (children h (macros meta) w)"
          by (simp add: children_def)
        have "defaultFormatOperator h' c' (visit w meta) = defaultFormatOperator h c (visit w meta)"
          using ac_v rel_v r fresh_v [OF ch]
            "1.IH"(3) [OF False inside OpNot ac_v rel_v anc_v [OF ch]]
          by (rule render_inlinedRef)
        then show ?thesis
          by (simp add: render_not [OF w False OpNot] render_not [OF w' False n'])
      next
        case (OpMacro name)
        with node' have n': "h' ! w = OpMacro name"
          by (simp add: inlinedNode_def)
        show ?thesis
        proof (cases "macros meta name")
          case None
          then show ?thesis
            by (simp add: render_macro [OF w False OpMacro] render_macro [OF w' False n']
                getProperty_def)
        next
          case (Some macro)
          show ?thesis
          proof (cases "length h \<le> macro")
            case True
            with Some len show ?thesis
              by (simp add: render_macro [OF w False OpMacro] render_macro [OF w' False n'])
          next
            case body: False
            with Some OpMacro w have ch: "macro \<in> set (children h (macros meta) w)"
              by (simp add: children_def)
            have "defaultFormatOperator h' macro (visit w meta)
                = defaultFormatOperator h macro (visit w meta)"
              using "1.IH"(4) [OF False inside OpMacro _ body ac_v rel_v anc_v [OF ch]] Some
              by simp
            with Some body len show ?thesis
              by (simp add: render_macro [OF w False OpMacro] render_macro [OF w' False n'])
          qed
        qed
      next
        case (OpField key)
        with node' have n': "h' ! w = OpField key"
          by (simp add: inlinedNode_def)
        show ?thesis
          by (simp add: render_field [OF w False OpField] render_field [OF w' False n'])
      next
        case (OpCmp sign a b)
        with node' have n': "h' ! w = OpCmp sign a b"
          by (simp add: inlinedNode_def)
        show ?thesis
          by (simp add: render_cmp [OF w False OpCmp] render_cmp [OF w' False n'])
      next
        case (OpEmpty sign a)
        with node' have n': "h' ! w = OpEmpty sign a"
          by (simp add: inlinedNode_def)
        show ?thesis
          by (simp add: render_empty [OF w False OpEmpty] render_empty [OF w' False n'])
      next
        case (OpEq sign a b bs)
        with node' have n': "h' ! w = OpEq sign a b bs"
          by (simp add: inlinedNode_def)
        show ?thesis
        proof (cases "bs = []")
          case True
          with OpEq n' have n: "h ! w = OpEq sign a b []" "h' ! w = OpEq sign a b []"
            by simp_all
          show ?thesis
            by (simp add: render_eq_one [OF w False n(1)] render_eq_one [OF w' False n(2)])
        next
          case many: False
          show ?thesis
            by (simp add: render_eq_many [OF w False OpEq many] render_eq_many [OF w' False n' many]
                del: formatValues.simps)
        qed
      qed
    qed
  qed
qed

lemma wherePart_inlined:
  assumes "acyclicBy rank h (macros meta)"
    and "list_all2 (inlinedNode h (macros meta)) h h'"
    and "inlinedRef h (macros meta) False w w'"
    and "visited meta = []"
    and "stmt_where sql = Some w" and "stmt_where sql' = Some w'"
  shows "wherePart h' sql' meta = wherePart h sql meta"
proof -
  have len: "length h' = length h"
    using assms(2) by (simp add: list_all2_lengthD)
  show ?thesis
  proof (cases "length h \<le> w")
  case True
  with assms(3) have "w' = w"
    by (auto simp: inlinedRef_def macroBody_def)
  with True len assms(5,6) show ?thesis
    by (simp add: wherePart_def)
next
  case False
  have same: "defaultFormatOperator h' w meta = defaultFormatOperator h w meta"
    by (rule render_inlined [OF assms(1,2)]) (simp add: assms(4))
  have "defaultFormatOperator h' w' meta = defaultFormatOperator h w meta"
    by (rule render_inlinedRef [OF assms(1-3) _ same]) (simp add: assms(4))
  moreover have "w' < length h"
  proof (cases "w' = w")
    case True
    with False show ?thesis by simp
  next
    case other: False
    with assms(3) have "macroBody h (macros meta) w = Some w'"
      by (simp add: inlinedRef_def)
    then show ?thesis by (rule macroBody_node)
  qed
  ultimately show ?thesis
    using False len assms(5,6) by (simp add: wherePart_def)
qed
qed

text \<open>
  Claim C3, amended. In an acyclic store, a call with the built-in formatters returns
  the same result when macro references are replaced by the bodies they resolve to: the
  where-expression itself, clauses of \<^verbatim>\<open>not\<close>, and clauses of \<^verbatim>\<open>and\<close> and \<^verbatim>\<open>or\<close> whose
  body is not itself an \<^verbatim>\<open>and\<close> or \<^verbatim>\<open>or\<close>. References inside macro bodies are clauses of
  the store and may be replaced as well, so the statement covers nested references. A
  body that is an \<^verbatim>\<open>and\<close> or \<^verbatim>\<open>or\<close> is in parentheses as a clause of \<^verbatim>\<open>and\<close> or \<^verbatim>\<open>or\<close>, and its
  reference is not.
\<close>

theorem macro_reference_renders_as_body:
  assumes "opt_formatters options = None"
    and "acyclicBy rank h (macrosOrDefault options)"
    and "list_all2 (inlinedNode h (macrosOrDefault options)) h h'"
    and "query_where query = Some w"
    and "inlinedRef h (macrosOrDefault options) False w w'"
  shows "generateSql options h' dialect flds (query\<lparr>query_where := Some w'\<rparr>)
       = generateSql options h dialect flds query"
proof (cases "builtInFormatters dialect")
  case None
  with assms(1) show ?thesis
    by (simp add: generateSql_def formattersOrDefault_def getProperty_def)
next
  case (Some fmt)
  let ?meta = "metadata fmt flds (macrosOrDefault options)"
  let ?sql = "\<lparr>stmt_type = ''SELECT'', stmt_list = ''*'', stmt_from = tableName options,
      stmt_where = query_where query, stmt_limit = query_limit query\<rparr>"
  let ?sql' = "\<lparr>stmt_type = ''SELECT'', stmt_list = ''*'', stmt_from = tableName options,
      stmt_where = Some w', stmt_limit = query_limit query\<rparr>"
  have wp: "wherePart h' ?sql' ?meta = wherePart h ?sql ?meta"
    by (rule wherePart_inlined [where rank = rank and w = w and w' = w'])
      (use assms(2-5) in simp_all)
  have "defaultFormatStatement h' ?sql' ?meta = defaultFormatStatement h ?sql ?meta"
    by (simp add: defaultFormatStatement_def wp fromPart_def limitPart_def split: sum.split)
  moreover have "sqlserverFormatStatement h' ?sql' ?meta = sqlserverFormatStatement h ?sql ?meta"
    by (simp add: sqlserverFormatStatement_def wp fromPart_def limitPart_def split: sum.split)
  ultimately have "formatStatement fmt h' ?sql' ?meta = formatStatement fmt h ?sql ?meta"
    using builtInFormatters_cases [OF Some] by (elim disjE) simp_all
  with Some assms(1) show ?thesis
    by (simp add: generateSql_def formattersOrDefault_def)
qed

theorem macro_reference_renders_as_body_witness:
  "generateSql exampleMacroOptions (exampleMacroStore[0 := OpNot 3, 3 := OpBool And 1 2])
      ''postgres'' exampleFields \<lparr>query_limit = None, query_where = Some 0\<rparr>
   = generateSql exampleMacroOptions exampleMacroStore
      ''postgres'' exampleFields \<lparr>query_limit = None, query_where = Some 0\<rparr>"
proof -
  have a: "opt_formatters exampleMacroOptions = None"
    by (simp add: exampleMacroOptions_def)
  have b: "acyclicBy exampleRank exampleMacroStore (macrosOrDefault exampleMacroOptions)"
    by code_simp
  have c: "list_all2 (inlinedNode exampleMacroStore (macrosOrDefault exampleMacroOptions))
      exampleMacroStore (exampleMacroStore[0 := OpNot 3, 3 := OpBool And 1 2])"
    by code_simp
  have d: "query_where \<lparr>query_limit = None, query_where = Some 0\<rparr> = Some 0"
    by simp
  have e: "inlinedRef exampleMacroStore (macrosOrDefault exampleMacroOptions) False 0 0"
    by (simp add: inlinedRef_def)
  show ?thesis
    using macro_reference_renders_as_body [OF a b c d e, of "''postgres''" exampleFields]
    by simp
qed

text \<open>
  The claim as it is stated fails for the where-expression of the repository's test of
  nested macros: the test expects the text without parentheses, and the same expression
  with the body of \<^verbatim>\<open>is_adult_joe\<close> in the place of the reference has them.
\<close>

theorem macro_inline_counterexample:
  "generateSql exampleMacroOptions exampleMacroStore ''postgres'' exampleFields
      \<lparr>query_limit = None, query_where = Some 8\<rparr>
     = \<lparr>success = True, error = None,
        data = Some (''SELECT * FROM data WHERE '' @ [CHR 0x22] @ ''id'' @ [CHR 0x22] @ '' < 5 AND ''
          @ [CHR 0x22] @ ''name'' @ [CHR 0x22] @ '' = '' @ [CHR 0x27] @ ''joe'' @ [CHR 0x27] @ '' AND ''
          @ [CHR 0x22] @ ''age'' @ [CHR 0x22] @ '' > 18;'')\<rparr>
   \<and> generateSql exampleMacroOptions (exampleMacroStore[8 := OpBool And 7 3]) ''postgres'' exampleFields
      \<lparr>query_limit = None, query_where = Some 8\<rparr>
     = \<lparr>success = True, error = None,
        data = Some (''SELECT * FROM data WHERE '' @ [CHR 0x22] @ ''id'' @ [CHR 0x22] @ '' < 5 AND (''
          @ [CHR 0x22] @ ''name'' @ [CHR 0x22] @ '' = '' @ [CHR 0x27] @ ''joe'' @ [CHR 0x27] @ '' AND ''
          @ [CHR 0x22] @ ''age'' @ [CHR 0x22] @ '' > 18);'')\<rparr>"
  by code_simp

end
